theory Spec2Isabelle
  imports Main "HOL-Library.Word"
begin

section \<open>The session registry: internal/servercore/sessions.go\<close>

subsection \<open>Time\<close>

text \<open>
  A \<^verbatim>\<open>time.Time\<close> is an instant, counted here in nanoseconds on an unbounded line.
  A \<^verbatim>\<open>time.Duration\<close> is an \<^verbatim>\<open>int64\<close> number of nanoseconds: its arithmetic wraps, and
  \<open>sint\<close> reads its signed value. \<^verbatim>\<open>t.Add(d)\<close> is \<open>t + sint d\<close> and
  \<^verbatim>\<open>t.Before(u)\<close> is \<open>t < u\<close>.
\<close>

type_synonym Time = int
type_synonym Duration = "64 word"

text \<open>A Go \<^verbatim>\<open>error\<close> value is its message.\<close>

type_synonym error = string

definition Second :: Duration where
  "Second = 1000000000"

definition Minute :: Duration where
  "Minute = 60 * Second"

definition maxSessionLifetime :: Duration where
  "maxSessionLifetime = 5 * Minute"

subsection \<open>Sessions\<close>

text \<open>
  Modelled from the spec: the status enumeration of package \<^verbatim>\<open>server\<close> and its method
  \<^verbatim>\<open>Finished\<close>, which sessions.go uses and does not declare. The spec lists the states
  INITIALIZED, CONNECTED, COMMUNICATING, CANCELLED, DONE, TIMEOUT; "the last three are
  terminal; finished() returns true for them".
\<close>

datatype Status =
    StatusInitialized
  | StatusConnected
  | StatusCommunicating
  | StatusCancelled
  | StatusDone
  | StatusTimeout

fun Finished :: "Status \<Rightarrow> bool" where
  "Finished StatusCancelled = True"
| "Finished StatusDone = True"
| "Finished StatusTimeout = True"
| "Finished _ = False"

type_synonym Action = string

text \<open>
  The request types of package \<^verbatim>\<open>irma\<close> are used through \<^verbatim>\<open>Base().ClientTimeout\<close>,
  \<^verbatim>\<open>SessionRequest()\<close>, \<^verbatim>\<open>SetNonce\<close> and \<^verbatim>\<open>SetContext\<close> only. A nonce or context is a
  \<^verbatim>\<open>*big.Int\<close>, which may be nil. \<^verbatim>\<open>ClientTimeout\<close> is a Go \<^verbatim>\<open>int\<close>.
\<close>

record SessionRequest =
  Nonce :: "int option"
  Context :: "int option"
  Payload :: string

record RequestorRequest =
  ClientTimeout :: int
  CallbackUrl :: string
  Request :: SessionRequest

record SessionResult =
  Token :: string
  Type :: Action
  Status :: Status

text \<open>An event source is a handle; what is done to it is recorded as events.\<close>

type_synonym EventSource = nat

text \<open>
  The struct \<^verbatim>\<open>session\<close>. The embedded mutex shows as lock events, and the two back
  pointers \<^verbatim>\<open>conf\<close> and \<^verbatim>\<open>sessions\<close> are left out. \<^verbatim>\<open>request\<close> holds what
  \<^verbatim>\<open>rrequest.SessionRequest()\<close> returned at creation.
\<close>

record session =
  action :: Action
  token :: string
  version :: "(nat \<times> nat) option"
  rrequest :: RequestorRequest
  request :: SessionRequest
  status :: Status
  prevStatus :: Status
  evtSource :: "EventSource option"
  lastActive :: Time
  result :: SessionResult
  kssProofs :: "(string \<times> string) list"

text \<open>
  A reader/writer lock that a method of \<^verbatim>\<open>memorySessionStore\<close> can take: the one
  embedded in the store, which a method with a pointer receiver reaches, or the one in
  the copy of the store that a method with a value receiver works on.
\<close>

datatype rwmutex = StoreMutex | ReceiverCopy

text \<open>
  What a store operation does besides changing the map: taking and releasing a
  reader/writer lock and a session's mutex, signalling and closing an event source, and
  removing a key. Log lines are not recorded.
\<close>

datatype event =
    EvRLock rwmutex
  | EvRUnlock rwmutex
  | EvLock rwmutex
  | EvUnlock rwmutex
  | EvSessionLock string
  | EvSessionUnlock string
  | EvSignal EventSource Status
  | EvClose EventSource
  | EvDelete string

text \<open>
  The map \<^verbatim>\<open>m\<close> of \<^verbatim>\<open>memorySessionStore\<close>. The map holds pointers; changing a session
  through its pointer is an update of the value stored under its token.
\<close>

type_synonym memorySessionStore = "string \<rightharpoonup> session"

subsection \<open>Session methods that sessions.go calls\<close>

text \<open>
  Modelled from the spec: \<^verbatim>\<open>session.markAlive\<close>, not in the source files; the spec says
  "call markAlive() (refresh timestamp)".
\<close>

definition markAlive :: "Time \<Rightarrow> session \<Rightarrow> session" where
  "markAlive now s = s\<lparr>lastActive := now\<rparr>"

text \<open>
  Modelled from the spec: \<^verbatim>\<open>session.setStatus\<close>, not in the source files; the spec says
  "setStatus(s) records prevStatus <- status; status <- s, updates result.status, and
  signals the event sink".
\<close>

definition setStatus :: "Status \<Rightarrow> session \<Rightarrow> session \<times> event list" where
  "setStatus st s =
     (s\<lparr>prevStatus := status s, status := st, result := (result s)\<lparr>Status := st\<rparr>\<rparr>,
      (case evtSource s of None \<Rightarrow> [] | Some h \<Rightarrow> [EvSignal h st]))"

subsection \<open>get and add\<close>

definition get :: "memorySessionStore \<Rightarrow> string \<Rightarrow> session option \<times> memorySessionStore \<times> event list" where
  "get m tok = (m tok, m, [EvRLock StoreMutex, EvRUnlock StoreMutex])"

definition add :: "memorySessionStore \<Rightarrow> string \<Rightarrow> session \<Rightarrow> memorySessionStore \<times> event list" where
  "add m tok ses = (m(tok \<mapsto> ses), [EvLock StoreMutex, EvUnlock StoreMutex])"

subsection \<open>deleteExpired\<close>

text \<open>Lines 89 to 92: the timeout that applies to a session.\<close>

definition sessionTimeout :: "session \<Rightarrow> Duration" where
  "sessionTimeout s =
     (if status s = StatusInitialized \<and> ClientTimeout (rrequest s) \<noteq> 0
      then word_of_int (ClientTimeout (rrequest s)) * Second
      else maxSessionLifetime)"

text \<open>Line 94: \<^verbatim>\<open>session.lastActive.Add(timeout).Before(time.Now())\<close>.\<close>

definition isExpired :: "Time \<Rightarrow> session \<Rightarrow> bool" where
  "isExpired now s \<longleftrightarrow> lastActive s + sint (sessionTimeout s) < now"

text \<open>
  Lines 87 to 104, the body of the first loop for one entry: the session as the
  iteration leaves it, the tokens it appends to \<^verbatim>\<open>expired\<close>, and its events.
  The clock is read as \<open>now\<close> throughout one pass.
\<close>

definition checkSession :: "Time \<Rightarrow> string \<Rightarrow> session \<Rightarrow> session \<times> string list \<times> event list" where
  "checkSession now tok s =
     (if isExpired now s then
        (if \<not> Finished (status s) then
           (let (s', evs) = setStatus StatusTimeout (markAlive now s)
            in (s', [], [EvSessionLock tok] @ evs @ [EvSessionUnlock tok]))
         else (s, [tok], [EvSessionLock tok, EvSessionUnlock tok]))
      else (s, [], [EvSessionLock tok, EvSessionUnlock tok]))"

text \<open>
  Lines 86 to 105: the first loop. Go ranges over a map in an order it does not specify;
  \<open>order\<close> is the order of this pass, the keys of the map each once.
\<close>

fun checkSessions :: "Time \<Rightarrow> string list \<Rightarrow> memorySessionStore \<Rightarrow> memorySessionStore \<times> string list \<times> event list" where
  "checkSessions now [] m = (m, [], [])"
| "checkSessions now (tok # toks) m =
     (case m tok of
        None \<Rightarrow> checkSessions now toks m
      | Some s \<Rightarrow>
          (let (s', exp, evs) = checkSession now tok s;
               (m', exps, evss) = checkSessions now toks (m(tok \<mapsto> s'))
           in (m', exp @ exps, evs @ evss)))"

datatype panic = NilPointerDereference | PanicMessage string

text \<open>
  Lines 110 to 116: the second loop. \<^verbatim>\<open>s.m[token]\<close> of a missing key is a nil pointer,
  and reading its \<^verbatim>\<open>evtSource\<close> panics.
\<close>

fun deleteSessions :: "string list \<Rightarrow> memorySessionStore \<Rightarrow> panic + memorySessionStore \<times> event list" where
  "deleteSessions [] m = Inr (m, [])"
| "deleteSessions (tok # toks) m =
     (case m tok of
        None \<Rightarrow> Inl NilPointerDereference
      | Some s \<Rightarrow>
          (case deleteSessions toks (m(tok := None)) of
             Inl p \<Rightarrow> Inl p
           | Inr (m', evs) \<Rightarrow>
               Inr (m', (case evtSource s of None \<Rightarrow> [] | Some h \<Rightarrow> [EvClose h]) @ [EvDelete tok] @ evs)))"

text \<open>
  Lines 81 to 118. \<^verbatim>\<open>get\<close> and \<^verbatim>\<open>add\<close> have pointer receivers and take the store's
  lock. \<^verbatim>\<open>deleteExpired\<close> has a value receiver: \<^verbatim>\<open>s\<close> is a copy of the store, so
  \<^verbatim>\<open>s.RLock()\<close> and \<^verbatim>\<open>s.Lock()\<close> take the lock of the copy, while \<^verbatim>\<open>s.m\<close> is the
  store's own map.
\<close>

definition deleteExpired :: "Time \<Rightarrow> string list \<Rightarrow> memorySessionStore \<Rightarrow> panic + memorySessionStore \<times> event list" where
  "deleteExpired now order m =
     (let (m1, expired, evs1) = checkSessions now order m
      in case deleteSessions expired m1 of
           Inl p \<Rightarrow> Inl p
         | Inr (m2, evs2) \<Rightarrow> Inr (m2, [EvRLock ReceiverCopy] @ evs1 @ [EvRUnlock ReceiverCopy, EvLock ReceiverCopy] @
                                     evs2 @ [EvUnlock ReceiverCopy]))"

subsection \<open>newSessionToken and newSession\<close>

definition sessionChars :: string where
  "sessionChars = ''abcdefghijklmnopqrstuvwxyzABCDEFGHIJKLMNOPQRSTUVWXYZ0123456789''"

text \<open>
  Line 153 for one draw: \<^verbatim>\<open>sessionChars[rand.Int63()%int64(len(sessionChars))]\<close>.
  \<^verbatim>\<open>rand.Int63\<close> returns a non-negative 63-bit integer, so a draw is a natural number
  below \<open>2 ^ 63\<close>, the remainder is the mathematical one and the index is in range.
\<close>

definition tokenChar :: "nat \<Rightarrow> char" where
  "tokenChar r = sessionChars ! (r mod length sessionChars)"

text \<open>Lines 152 to 154: the loop over the indices of \<open>b\<close>; \<open>draws i\<close> is the draw of round \<open>i\<close>.\<close>

function fillToken :: "(nat \<Rightarrow> nat) \<Rightarrow> nat \<Rightarrow> string \<Rightarrow> string" where
  "fillToken draws i b =
     (if i < length b then fillToken draws (i + 1) (b[i := tokenChar (draws i)]) else b)"
  by pat_completeness auto
termination
  by (relation "measure (\<lambda>(draws, i, b). length b - i)") auto

declare fillToken.simps [simp del]

definition newSessionToken :: "(nat \<Rightarrow> nat) \<Rightarrow> string" where
  "newSessionToken draws = fillToken draws 0 (replicate 20 (CHR 0x00))"

text \<open>
  What \<^verbatim>\<open>newSession\<close> takes from outside the source: the clock, the draws of
  \<^verbatim>\<open>rand.Int63\<close>, of package \<^verbatim>\<open>gabi\<close> the field \<^verbatim>\<open>Lstatzk\<close> of
  \<^verbatim>\<open>DefaultSystemParameters[2048]\<close>, and what the system's random reader delivers to
  \<^verbatim>\<open>gabi.RandomBigInt\<close>: a number, or nothing when reading fails.
\<close>

record env =
  Now :: Time
  Int63 :: "nat \<Rightarrow> nat"
  Lstatzk :: nat
  Entropy :: "nat option"

text \<open>
  Modelled from the spec: \<^verbatim>\<open>gabi.RandomBigInt\<close>, not in the source files; the spec says
  "the server generates a fresh random nonce of bit length determined by the system
  parameters of the chosen credential scheme (Lstatzk)". For a number of bits the call
  returns a random non-negative integer that fits in so many bits, every such integer
  being possible. Line 142 takes two results from the call, an integer and an error:
  when the random reader fails there is an error and no integer.
\<close>

definition RandomBigInt :: "nat option \<Rightarrow> nat \<Rightarrow> error + int" where
  "RandomBigInt entropy numBits =
     (case entropy of
        None \<Rightarrow> Inl ''random reader failed''
      | Some r \<Rightarrow> Inr (int (r mod 2 ^ numBits)))"

definition one_big :: int where
  "one_big = 1"

text \<open>The two setters of \<^verbatim>\<open>irma.SessionRequest\<close> that \<^verbatim>\<open>newSession\<close> calls. Line 142 drops the
  error of \<^verbatim>\<open>gabi.RandomBigInt\<close>; the nonce is nil when there is one.\<close>

definition SetNonce :: "int option \<Rightarrow> SessionRequest \<Rightarrow> SessionRequest" where
  "SetNonce n r = r\<lparr>Nonce := n\<rparr>"

definition SetContext :: "int option \<Rightarrow> SessionRequest \<Rightarrow> SessionRequest" where
  "SetContext c r = r\<lparr>Context := c\<rparr>"

definition newSession :: "env \<Rightarrow> memorySessionStore \<Rightarrow> Action \<Rightarrow> RequestorRequest \<Rightarrow> session \<times> memorySessionStore \<times> event list" where
  "newSession e m act req =
     (let tok = newSessionToken (Int63 e);
          ses = \<lparr>action = act, token = tok, version = None, rrequest = req,
                 request = Request req, status = StatusInitialized,
                 prevStatus = StatusInitialized, evtSource = None, lastActive = Now e,
                 result = \<lparr>Token = tok, Type = act, Status = StatusInitialized\<rparr>,
                 kssProofs = []\<rparr>;
          nonce = (case RandomBigInt (Entropy e) (Lstatzk e) of Inl err \<Rightarrow> None | Inr n \<Rightarrow> Some n);
          ses1 = ses\<lparr>request := SetNonce nonce (request ses)\<rparr>;
          ses2 = ses1\<lparr>request := SetContext (Some one_big) (request ses1)\<rparr>;
          (m', evs) = add m tok ses2
      in (ses2, m', evs))"

section \<open>The HTTP transport\<close>

subsection \<open>Errors of package irmago\<close>

type_synonym ErrorType = string

definition ErrorTransport :: ErrorType where
  "ErrorTransport = ''transport''"

definition ErrorSerialization :: ErrorType where
  "ErrorSerialization = ''serialization''"

definition ErrorApi :: ErrorType where
  "ErrorApi = ''api''"

definition ErrorServerResponse :: ErrorType where
  "ErrorServerResponse = ''serverResponse''"

record ApiError =
  apiStatus :: int
  ErrorName :: string
  Description :: string
  Message :: string
  Stacktrace :: string

record SessionError =
  Err :: "error option"
  ErrorType :: ErrorType
  ApiError :: "ApiError option"
  Info :: string
  errStatus :: int

definition zeroApiError :: ApiError where
  "zeroApiError = \<lparr>apiStatus = 0, ErrorName = [], Description = [], Message = [], Stacktrace = []\<rparr>"

definition sessionError :: "ErrorType \<Rightarrow> error option \<Rightarrow> int \<Rightarrow> ApiError option \<Rightarrow> SessionError" where
  "sessionError ty e st a = \<lparr>Err = e, ErrorType = ty, ApiError = a, Info = [], errStatus = st\<rparr>"

subsection \<open>Requests and responses\<close>

definition MethodGet :: string where
  "MethodGet = ''GET''"

definition MethodPost :: string where
  "MethodPost = ''POST''"

definition MethodDelete :: string where
  "MethodDelete = ''DELETE''"

text \<open>
  The argument \<^verbatim>\<open>object interface{}\<close>: nil, a string, or any other value. The argument
  \<^verbatim>\<open>result interface{}\<close>: nil, a \<^verbatim>\<open>*string\<close> with what it points to, or any other pointer
  with what it points to; it is called \<open>target\<close> below, \<open>result\<close> being a field of a
  session.
\<close>

datatype 'o object = ObjNil | ObjString string | ObjValue 'o

datatype 'r target = TargetNil | TargetString string | TargetValue 'r

text \<open>
  The headers of a request are keyed by the canonical form of a name, which
  \<^verbatim>\<open>Header.Set\<close> computes. The headers of a transport are kept under the names given to
  \<^verbatim>\<open>SetHeader\<close>, here in the order in which the range of line 86 visits them.
\<close>

record Request =
  Method :: string
  URL :: string
  Body :: "string option"
  Header :: "string \<rightharpoonup> string"

record Response =
  StatusCode :: int
  ResBody :: "error + string"

record HTTPTransport =
  Server :: string
  headers :: "(string \<times> string) list"

text \<open>
  The library calls whose outcome the source does not determine: \<^verbatim>\<open>json.Marshal\<close>,
  \<^verbatim>\<open>json.Unmarshal\<close> into an \<^verbatim>\<open>ApiError\<close> and into the caller's result (each gives the
  target as the call leaves it, with an error or none), \<^verbatim>\<open>http.NewRequest\<close> (an error or
  none for a method and a URL) and \<^verbatim>\<open>client.Do\<close>. \<open>ResBody\<close> of a response is what
  \<^verbatim>\<open>ioutil.ReadAll(res.Body)\<close> returns.
\<close>

record ('o, 'r) world =
  Marshal :: "'o \<Rightarrow> error + string"
  UnmarshalApiError :: "string \<Rightarrow> ApiError \<Rightarrow> error option \<times> ApiError"
  Unmarshal :: "string \<Rightarrow> 'r target \<Rightarrow> error option \<times> 'r target"
  NewRequest :: "string \<Rightarrow> string \<Rightarrow> error option"
  Do :: "Request \<Rightarrow> error + Response"

subsection \<open>NewHTTPTransport and SetHeader\<close>

definition hasSuffixSlash :: "string \<Rightarrow> bool" where
  "hasSuffixSlash url \<longleftrightarrow> url \<noteq> [] \<and> last url = CHR ''/''"

definition NewHTTPTransport :: "string \<Rightarrow> HTTPTransport" where
  "NewHTTPTransport serverURL =
     \<lparr>Server = (if \<not> hasSuffixSlash serverURL then serverURL @ ''/'' else serverURL),
      headers = []\<rparr>"


subsection \<open>The method request of HTTPTransport\<close>

text \<open>Lines 51 to 71: \<open>isstr\<close> and the reader, or the serialization error of line 60.\<close>

definition encodeObject :: "('o, 'r) world \<Rightarrow> 'o object \<Rightarrow> SessionError + bool \<times> string option" where
  "encodeObject w object =
     (case object of
        ObjNil \<Rightarrow> Inr (False, None)
      | ObjString objstr \<Rightarrow> Inr (True, Some objstr)
      | ObjValue v \<Rightarrow>
          (case Marshal w v of
             Inl err \<Rightarrow> Inl (sessionError ErrorSerialization (Some err) 0 None)
           | Inr marshaled \<Rightarrow> Inr (False, Some marshaled)))"

text \<open>
  \<^verbatim>\<open>textproto.CanonicalMIMEHeaderKey\<close> of the Go library, as its documentation has it: the
  first letter and every letter after a hyphen become upper case and the other letters
  lower case; a name with a space or another byte that is not allowed in a header name
  is returned as it is. The letters are those of ASCII.
\<close>

definition validHeaderFieldByte :: "char \<Rightarrow> bool" where
  "validHeaderFieldByte c \<longleftrightarrow>
     (let n = (of_char c :: nat)
      in (48 \<le> n \<and> n \<le> 57) \<or> (65 \<le> n \<and> n \<le> 90) \<or> (97 \<le> n \<and> n \<le> 122) \<or>
         n \<in> set [33, 35, 36, 37, 38, 39, 42, 43, 45, 46, 94, 95, 96, 124, 126])"

definition canonicalByte :: "bool \<Rightarrow> char \<Rightarrow> char" where
  "canonicalByte upper c =
     (let n = (of_char c :: nat)
      in if upper \<and> 97 \<le> n \<and> n \<le> 122 then char_of (n - 32)
         else if \<not> upper \<and> 65 \<le> n \<and> n \<le> 90 then char_of (n + 32)
         else c)"

fun canonicalBytes :: "bool \<Rightarrow> string \<Rightarrow> string" where
  "canonicalBytes upper [] = []"
| "canonicalBytes upper (c # cs) =
     canonicalByte upper c # canonicalBytes (canonicalByte upper c = CHR ''-'') cs"

definition CanonicalMIMEHeaderKey :: "string \<Rightarrow> string" where
  "CanonicalMIMEHeaderKey s =
     (if list_all validHeaderFieldByte s then canonicalBytes True s else s)"

text \<open>
  Lines 78 to 88: the headers, each \<^verbatim>\<open>Set\<close> replacing what the canonical form of its
  name held.
\<close>

definition HeaderSet :: "string \<Rightarrow> string \<Rightarrow> Request \<Rightarrow> Request" where
  "HeaderSet name val req = req\<lparr>Header := (Header req)(CanonicalMIMEHeaderKey name \<mapsto> val)\<rparr>"

fun setHeaders :: "(string \<times> string) list \<Rightarrow> Request \<Rightarrow> Request" where
  "setHeaders [] req = req"
| "setHeaders ((name, val) # hs) req = setHeaders hs (HeaderSet name val req)"

definition addHeaders :: "HTTPTransport \<Rightarrow> 'o object \<Rightarrow> bool \<Rightarrow> Request \<Rightarrow> Request" where
  "addHeaders transport object isstr req0 =
     (let req1 = HeaderSet ''User-Agent'' ''irmago'' req0;
          req2 = (if object \<noteq> ObjNil then
                    (if isstr then HeaderSet ''Content-Type'' ''text/plain; charset=UTF-8'' req1
                     else HeaderSet ''Content-Type'' ''application/json; charset=UTF-8'' req1)
                  else req1)
      in setHeaders (headers transport) req2)"

text \<open>
  Lines 44 to 88: a panic, an error returned before anything is sent, or the request that
  line 90 hands to \<^verbatim>\<open>client.Do\<close>.
\<close>

definition prepare :: "('o, 'r) world \<Rightarrow> HTTPTransport \<Rightarrow> string \<Rightarrow> string \<Rightarrow> 'o object \<Rightarrow> panic + SessionError + Request" where
  "prepare w transport url method object =
     (if method \<noteq> MethodPost \<and> method \<noteq> MethodGet \<and> method \<noteq> MethodDelete
      then Inl (PanicMessage (''Unsupported HTTP method '' @ method))
      else if method = MethodGet \<and> object \<noteq> ObjNil
      then Inl (PanicMessage ''Cannot GET and also post an object'')
      else
        (case encodeObject w object of
           Inl e \<Rightarrow> Inr (Inl e)
         | Inr (isstr, reader) \<Rightarrow>
             (case NewRequest w method (Server transport @ url) of
                Some err \<Rightarrow> Inr (Inl (sessionError ErrorTransport (Some err) 0 None))
              | None \<Rightarrow>
                  Inr (Inr (addHeaders transport object isstr
                    \<lparr>Method = method, URL = Server transport @ url, Body = reader,
                     Header = Map.empty\<rparr>)))))"

text \<open>Lines 95 to 127: what is done with a response; the error returned and the caller's result.\<close>

definition receive :: "('o, 'r) world \<Rightarrow> string \<Rightarrow> 'r target \<Rightarrow> Response \<Rightarrow> SessionError option \<times> 'r target" where
  "receive w method target res =
     (if method = MethodDelete then (None, target)
      else
        (case ResBody res of
           Inl err \<Rightarrow> (Some (sessionError ErrorServerResponse (Some err) (StatusCode res) None), target)
         | Inr body \<Rightarrow>
             if StatusCode res \<noteq> 200 then
               (let apierr = snd (UnmarshalApiError w body zeroApiError)
                in if ErrorName apierr = []
                   then (Some (sessionError ErrorServerResponse None (StatusCode res) None), target)
                   else (Some (sessionError ErrorApi None (StatusCode res) (Some apierr)), target))
             else
               (case target of
                  TargetString old \<Rightarrow> (None, TargetString body)
                | _ \<Rightarrow>
                    (case Unmarshal w body target of
                       (Some err, target') \<Rightarrow>
                         (Some (sessionError ErrorServerResponse (Some err) (StatusCode res) None), target')
                     | (None, target') \<Rightarrow> (None, target')))))"

text \<open>
  The whole of \<^verbatim>\<open>request\<close>: a panic, or the error returned (none for nil), the caller's result as
  the call leaves it, and the requests handed to \<^verbatim>\<open>client.Do\<close>.
\<close>

definition transport_request :: "('o, 'r) world \<Rightarrow> HTTPTransport \<Rightarrow> string \<Rightarrow> string \<Rightarrow> 'r target \<Rightarrow> 'o object \<Rightarrow> panic + SessionError option \<times> 'r target \<times> Request list" where
  "transport_request w transport url method target object =
     (case prepare w transport url method object of
        Inl p \<Rightarrow> Inl p
      | Inr (Inl e) \<Rightarrow> Inr (Some e, target, [])
      | Inr (Inr req) \<Rightarrow>
          (case Do w req of
             Inl err \<Rightarrow> Inr (Some (sessionError ErrorTransport (Some err) 0 None), target, [req])
           | Inr res \<Rightarrow>
               (let (e, target') = receive w method target res in Inr (e, target', [req]))))"

definition Post :: "('o, 'r) world \<Rightarrow> HTTPTransport \<Rightarrow> string \<Rightarrow> 'r target \<Rightarrow> 'o object \<Rightarrow> panic + SessionError option \<times> 'r target \<times> Request list" where
  "Post w transport url target object = transport_request w transport url MethodPost target object"

definition Get :: "('o, 'r) world \<Rightarrow> HTTPTransport \<Rightarrow> string \<Rightarrow> 'r target \<Rightarrow> panic + SessionError option \<times> 'r target \<times> Request list" where
  "Get w transport url target = transport_request w transport url MethodGet target ObjNil"

text \<open>\<^verbatim>\<open>Delete\<close> drops what \<^verbatim>\<open>request\<close> returns; what remains is the requests sent.\<close>

definition Delete :: "('o, 'r) world \<Rightarrow> HTTPTransport \<Rightarrow> panic + Request list" where
  "Delete w transport =
     (case transport_request w transport [] MethodDelete TargetNil ObjNil of
        Inl p \<Rightarrow> Inl p
      | Inr (e, target', sent) \<Rightarrow> Inr sent)"

section \<open>Notions used in the statements and proofs\<close>

text \<open>What the first loop leaves of a session: lines 94 to 98 without the events.\<close>

definition sweepSession :: "Time \<Rightarrow> session \<Rightarrow> session" where
  "sweepSession now s =
     (if isExpired now s \<and> \<not> Finished (status s)
      then fst (setStatus StatusTimeout (markAlive now s)) else s)"

text \<open>The tokens that the first loop appends to \<^verbatim>\<open>expired\<close>.\<close>

definition toDelete :: "Time \<Rightarrow> memorySessionStore \<Rightarrow> string \<Rightarrow> bool" where
  "toDelete now m t = (case m t of None \<Rightarrow> False | Some s \<Rightarrow> isExpired now s \<and> Finished (status s))"

text \<open>The events of the first loop: a session's mutex and the signal of \<open>setStatus\<close>.\<close>

definition quiet :: "event \<Rightarrow> bool" where
  "quiet e = (case e of EvClose h \<Rightarrow> False | EvDelete t \<Rightarrow> False | EvLock l \<Rightarrow> False | EvUnlock l \<Rightarrow> False
     | EvRLock l \<Rightarrow> False | EvRUnlock l \<Rightarrow> False | _ \<Rightarrow> True)"

text \<open>The events of one round of the second loop.\<close>

definition closing :: "memorySessionStore \<Rightarrow> string \<Rightarrow> event list" where
  "closing m t =
     (case m t of None \<Rightarrow> [] | Some s \<Rightarrow>
        (case evtSource s of None \<Rightarrow> [] | Some h \<Rightarrow> [EvClose h]) @ [EvDelete t])"

subsection \<open>Concrete sessions\<close>

definition exampleRequest :: RequestorRequest where
  "exampleRequest =
     \<lparr>ClientTimeout = 0, CallbackUrl = [],
      Request = \<lparr>Nonce = Some 42, Context = Some 7, Payload = ''disclose''\<rparr>\<rparr>"

text \<open>A session created at instant 0, with a status, a client timeout and an event source.\<close>

definition exampleSession :: "string \<Rightarrow> Status \<Rightarrow> int \<Rightarrow> EventSource option \<Rightarrow> session" where
  "exampleSession tok st ct h =
     \<lparr>action = ''disclosing'', token = tok, version = None,
      rrequest = exampleRequest\<lparr>ClientTimeout := ct\<rparr>, request = Request exampleRequest,
      status = st, prevStatus = StatusInitialized, evtSource = h, lastActive = 0,
      result = \<lparr>Token = tok, Type = ''disclosing'', Status = st\<rparr>, kssProofs = []\<rparr>"

definition exampleStore :: memorySessionStore where
  "exampleStore =
     [''A'' \<mapsto> exampleSession ''A'' StatusInitialized 0 None,
      ''B'' \<mapsto> exampleSession ''B'' StatusDone 0 (Some 1)]"

subsection \<open>Draws and tokens\<close>

text \<open>The values of one draw of \<^verbatim>\<open>rand.Int63\<close> that give the character \<open>c\<close>.\<close>

definition drawsFor :: "char \<Rightarrow> nat set" where
  "drawsFor c = {r. r < 2 ^ 63 \<and> tokenChar r = c}"

text \<open>
  An environment in which every draw of \<^verbatim>\<open>rand.Int63\<close> is 0, and the store after a first
  session was created in it.
\<close>

definition exampleEnv :: env where
  "exampleEnv = \<lparr>Now = 5, Int63 = (\<lambda>i. 0), Lstatzk = 128, Entropy = Some 12345\<rparr>"

definition firstStore :: memorySessionStore where
  "firstStore = fst (snd (newSession exampleEnv Map.empty ''disclosing'' exampleRequest))"

subsection \<open>A concrete server\<close>

text \<open>
  A decoder that reads one body as an error envelope with a name and fails on every other
  body, and a world in which every request is answered with a given status and body.
\<close>

definition exampleParse :: "string \<Rightarrow> ApiError \<Rightarrow> error option \<times> ApiError" where
  "exampleParse body a =
     (if body = ''{error: SESSION_UNKNOWN}'' then (None, a\<lparr>ErrorName := ''SESSION_UNKNOWN''\<rparr>)
      else (Some ''invalid character'', a))"

definition exampleWorld :: "int \<Rightarrow> string \<Rightarrow> (unit, string) world" where
  "exampleWorld code body =
     \<lparr>Marshal = (\<lambda>v. Inr ''{}''),
      UnmarshalApiError = exampleParse,
      Unmarshal = (\<lambda>b t. (None, TargetValue b)),
      NewRequest = (\<lambda>method url. None),
      Do = (\<lambda>req. Inr \<lparr>StatusCode = code, ResBody = Inr body\<rparr>)\<rparr>"

text \<open>The requests that \<open>Get\<close> of the path status and \<open>Delete\<close> hand to the client.\<close>

definition exampleGet :: Request where
  "exampleGet =
     \<lparr>Method = ''GET'', URL = ''http://localhost/status'', Body = None,
      Header = [''User-Agent'' \<mapsto> ''irmago'']\<rparr>"

definition exampleDelete :: Request where
  "exampleDelete =
     \<lparr>Method = ''DELETE'', URL = ''http://localhost/'', Body = None,
      Header = [''User-Agent'' \<mapsto> ''irmago'']\<rparr>"

subsection \<open>The headers of a transport\<close>




subsection \<open>A failing random reader\<close>

section \<open>Properties of the session registry\<close>

subsection \<open>The two loops of deleteExpired\<close>

lemma checkSession_fst: "fst (checkSession now tok s) = sweepSession now s"
  by (simp add: checkSession_def sweepSession_def split: prod.splits)

lemma checkSession_exp:
  "fst (snd (checkSession now tok s)) = (if isExpired now s \<and> Finished (status s) then [tok] else [])"
  by (simp add: checkSession_def split: prod.splits)

lemma checkSessions_None:
  "m tok = None \<Longrightarrow> checkSessions now (tok # toks) m = checkSessions now toks m"
  by simp

lemma checkSessions_Some:
  "m tok = Some s \<Longrightarrow>
   checkSessions now (tok # toks) m =
     (fst (checkSessions now toks (m(tok \<mapsto> sweepSession now s))),
      fst (snd (checkSession now tok s)) @ fst (snd (checkSessions now toks (m(tok \<mapsto> sweepSession now s)))),
      snd (snd (checkSession now tok s)) @ snd (snd (checkSessions now toks (m(tok \<mapsto> sweepSession now s)))))"
  by (simp add: case_prod_beta checkSession_fst)

lemma checkSessions_map:
  "distinct order \<Longrightarrow>
   fst (checkSessions now order m) t =
     (if t \<in> set order then map_option (sweepSession now) (m t) else m t)"
proof (induction order arbitrary: m)
  case Nil
  then show ?case by simp
next
  case (Cons tok toks)
  show ?case
  proof (cases "m tok")
    case None
    with Cons show ?thesis by (auto simp del: checkSessions.simps simp: checkSessions_None)
  next
    case (Some s)
    with Cons show ?thesis
      by (auto simp del: checkSessions.simps simp: checkSessions_Some)
  qed
qed

lemma checkSessions_expired:
  "distinct order \<Longrightarrow>
   fst (snd (checkSessions now order m)) = filter (toDelete now m) order"
proof (induction order arbitrary: m)
  case Nil
  then show ?case by simp
next
  case (Cons tok toks)
  show ?case
  proof (cases "m tok")
    case None
    with Cons show ?thesis by (simp add: toDelete_def)
  next
    case (Some s)
    have eq: "filter (toDelete now (m(tok \<mapsto> s'))) toks = filter (toDelete now m) toks" for s'
      using Cons.prems by (intro filter_cong) (auto simp: toDelete_def)
    have d: "distinct toks" using Cons.prems by simp
    have "fst (snd (checkSessions now (tok # toks) m)) =
          fst (snd (checkSession now tok s)) @ filter (toDelete now m) toks"
      unfolding checkSessions_Some [of m tok s now toks, OF Some] Cons.IH [OF d] eq by simp
    moreover have "toDelete now m tok \<longleftrightarrow> isExpired now s \<and> Finished (status s)"
      by (simp add: toDelete_def Some)
    ultimately show ?thesis
      by (simp del: checkSessions.simps add: checkSession_exp)
  qed
qed

lemma checkSession_events: "e \<in> set (snd (snd (checkSession now tok s))) \<Longrightarrow> quiet e"
  by (auto simp: checkSession_def setStatus_def quiet_def split: if_splits option.splits)

lemma checkSessions_events:
  "e \<in> set (snd (snd (checkSessions now order m))) \<Longrightarrow> quiet e"
proof (induction order arbitrary: m)
  case Nil
  then show ?case by simp
next
  case (Cons tok toks)
  show ?case
  proof (cases "m tok")
    case None
    with Cons show ?thesis by (simp del: checkSessions.simps add: checkSessions_None)
  next
    case (Some s)
    with Cons show ?thesis
      by (auto simp del: checkSessions.simps simp: checkSessions_Some dest: checkSession_events)
  qed
qed

lemma deleteSessions_eq:
  "distinct toks \<Longrightarrow> set toks \<subseteq> dom m \<Longrightarrow>
   deleteSessions toks m = Inr (m |` (- set toks), concat (map (closing m) toks))"
proof (induction toks arbitrary: m)
  case Nil
  then show ?case by simp
next
  case (Cons tok toks)
  then obtain s where s: "m tok = Some s" by auto
  have sub: "set toks \<subseteq> dom (m(tok := None))" using Cons.prems by auto
  have cl: "map (closing (m(tok := None))) toks = map (closing m) toks"
    using Cons.prems by (auto simp: closing_def)
  have r: "(m(tok := None)) |` (- set toks) = m |` (- set (tok # toks))"
    by (auto simp: restrict_map_def fun_eq_iff)
  have d: "distinct toks" using Cons.prems by simp
  have ih: "deleteSessions toks (m(tok := None)) =
            Inr (m |` (- set (tok # toks)), concat (map (closing m) toks))"
    unfolding Cons.IH [OF d sub] cl r ..
  have c: "closing m tok = (case evtSource s of None \<Rightarrow> [] | Some h \<Rightarrow> [EvClose h]) @ [EvDelete tok]"
    by (simp add: closing_def s)
  show ?case
    unfolding deleteSessions.simps ih by (simp add: s c)
qed

lemma sweepSession_finished: "Finished (status s) \<Longrightarrow> sweepSession now s = s"
  by (simp add: sweepSession_def)

lemma checkSessions_toDelete:
  assumes "distinct order" "t \<in> set (filter (toDelete now m) order)"
  shows "fst (checkSessions now order m) t = m t" "t \<in> dom m"
proof -
  from assms obtain s where s: "m t = Some s" "isExpired now s" "Finished (status s)" "t \<in> set order"
    by (auto simp: toDelete_def split: option.splits)
  then show "fst (checkSessions now order m) t = m t"
    using assms(1) by (simp add: checkSessions_map sweepSession_finished)
  show "t \<in> dom m" using s by auto
qed

lemma deleteExpired_eq:
  assumes "distinct order"
  shows "deleteExpired now order m =
           Inr (fst (checkSessions now order m) |` (- set (filter (toDelete now m) order)),
                [EvRLock ReceiverCopy] @ snd (snd (checkSessions now order m)) @ [EvRUnlock ReceiverCopy, EvLock ReceiverCopy] @
                concat (map (closing m) (filter (toDelete now m) order)) @ [EvUnlock ReceiverCopy])"
proof -
  let ?m1 = "fst (checkSessions now order m)"
  let ?ex = "filter (toDelete now m) order"
  have ex: "fst (snd (checkSessions now order m)) = ?ex"
    using assms by (rule checkSessions_expired)
  have d: "distinct ?ex" using assms by simp
  have sub: "set ?ex \<subseteq> dom ?m1"
  proof
    fix t assume t: "t \<in> set ?ex"
    from checkSessions_toDelete [OF assms t] show "t \<in> dom ?m1" by (auto simp: dom_def)
  qed
  have cl: "map (closing ?m1) ?ex = map (closing m) ?ex"
  proof (rule map_cong [OF refl])
    fix t assume t: "t \<in> set ?ex"
    from checkSessions_toDelete(1) [OF assms t] show "closing ?m1 t = closing m t"
      by (simp add: closing_def)
  qed
  have del: "deleteSessions ?ex ?m1 = Inr (?m1 |` (- set ?ex), concat (map (closing m) ?ex))"
    unfolding deleteSessions_eq [OF d sub] cl ..
  obtain m1 e1 v1 where c: "checkSessions now order m = (m1, e1, v1)"
    by (cases "checkSessions now order m") auto
  show ?thesis
    using del ex unfolding deleteExpired_def c by simp
qed

lemma deleteExpired_store:
  assumes "distinct order" "deleteExpired now order m = Inr (m', evs)"
  shows "m' t = (if t \<in> set order
                 then (case m t of None \<Rightarrow> None
                       | Some s \<Rightarrow> if isExpired now s \<and> Finished (status s) then None
                                    else Some (sweepSession now s))
                 else m t)"
proof -
  have m': "m' = fst (checkSessions now order m) |` (- set (filter (toDelete now m) order))"
    using assms deleteExpired_eq [OF assms(1), of now m] by simp
  show ?thesis
    unfolding m' using assms(1)
    by (auto simp: restrict_map_def checkSessions_map toDelete_def split: option.splits)
qed

lemma maxSessionLifetime_sint: "sint maxSessionLifetime = 300000000000"
  by (simp add: maxSessionLifetime_def Minute_def Second_def)

lemma sint_word64:
  "- 9223372036854775808 \<le> k \<Longrightarrow> k < 9223372036854775808 \<Longrightarrow> sint (word_of_int k :: 64 word) = k"
  by (simp add: signed_of_int signed_take_bit_int_eq_self)

lemma seconds_sint:
  assumes "- 9223372036 \<le> ct" "ct \<le> 9223372036"
  shows "sint (word_of_int ct * Second) = ct * 1000000000"
proof -
  have eq: "word_of_int ct * Second = (word_of_int (ct * 1000000000) :: 64 word)"
    by (simp add: Second_def)
  show ?thesis
    unfolding eq by (rule sint_word64) (use assms in simp_all)
qed

lemma closing_events: "e \<in> set (closing m t) \<Longrightarrow> e = EvDelete t \<or> (\<exists>h. e = EvClose h)"
  by (auto simp: closing_def split: option.splits)

lemma sessionTimeout_default:
  "status s \<noteq> StatusInitialized \<or> ClientTimeout (rrequest s) = 0 \<Longrightarrow>
   sint (sessionTimeout s) = 300000000000"
  by (auto simp: sessionTimeout_def maxSessionLifetime_sint)

lemma sessionTimeout_client:
  "status s = StatusInitialized \<Longrightarrow> ClientTimeout (rrequest s) \<noteq> 0 \<Longrightarrow>
   - 9223372036 \<le> ClientTimeout (rrequest s) \<Longrightarrow> ClientTimeout (rrequest s) \<le> 9223372036 \<Longrightarrow>
   sint (sessionTimeout s) = ClientTimeout (rrequest s) * 1000000000"
  by (simp add: sessionTimeout_def seconds_sint)

subsection \<open>What a pass does to an expired session\<close>

text \<open>
  A pass of \<open>deleteExpired\<close> at instant \<open>now\<close>, over a store in which \<open>tok\<close> holds the
  session \<open>s\<close> that line 94 finds expired. The pass returns. If \<open>s\<close> is not in a terminal
  state, the store afterwards holds under \<open>tok\<close> the session \<open>s\<close> after \<open>markAlive\<close>
  and then \<open>setStatus StatusTimeout\<close>, and \<open>tok\<close> is not deleted. If \<open>s\<close> is in a
  terminal state, \<open>tok\<close> is absent afterwards, and its removal happens in the second
  loop, right after the closing of its event source when it has one; the first loop
  closes and removes nothing. The locks taken around the two loops are those of the
  receiver's copy of the store.
\<close>

lemma deleteExpired_pass:
  assumes "distinct order" and "tok \<in> set order" and "m tok = Some s"
    and "lastActive s + sint (sessionTimeout s) < now"
  shows "\<exists>m' evs1 evs2.
           deleteExpired now order m =
             Inr (m', [EvRLock ReceiverCopy] @ evs1 @ [EvRUnlock ReceiverCopy, EvLock ReceiverCopy] @
                      evs2 @ [EvUnlock ReceiverCopy]) \<and>
           (\<forall>t. EvDelete t \<notin> set evs1) \<and> (\<forall>h. EvClose h \<notin> set evs1) \<and>
           (\<not> Finished (status s) \<longrightarrow>
              m' tok = Some (fst (setStatus StatusTimeout (markAlive now s))) \<and>
              map_option lastActive (m' tok) = Some now \<and>
              map_option status (m' tok) = Some StatusTimeout \<and>
              EvDelete tok \<notin> set evs2) \<and>
           (Finished (status s) \<longrightarrow>
              m' tok = None \<and>
              (\<exists>pre post. evs2 =
                 pre @ (case evtSource s of None \<Rightarrow> [] | Some h \<Rightarrow> [EvClose h]) @ [EvDelete tok] @ post))"
proof -
  let ?ex = "filter (toDelete now m) order"
  let ?evs1 = "snd (snd (checkSessions now order m))"
  let ?evs2 = "concat (map (closing m) ?ex)"
  let ?m' = "fst (checkSessions now order m) |` (- set ?ex)"
  have run: "deleteExpired now order m =
               Inr (?m', [EvRLock ReceiverCopy] @ ?evs1 @ [EvRUnlock ReceiverCopy, EvLock ReceiverCopy] @ ?evs2 @ [EvUnlock ReceiverCopy])"
    by (rule deleteExpired_eq [OF assms(1)])
  have exp: "isExpired now s" using assms(4) by (simp add: isExpired_def)
  have store: "?m' tok = (if Finished (status s) then None else Some (sweepSession now s))"
    using deleteExpired_store [OF assms(1) run, of tok] assms(2,3) exp by simp
  have q1: "\<forall>t. EvDelete t \<notin> set ?evs1"
    by (auto dest: checkSessions_events simp: quiet_def)
  have q2: "\<forall>h. EvClose h \<notin> set ?evs1"
    by (auto dest: checkSessions_events simp: quiet_def)
  have live: "m' tok = Some (fst (setStatus StatusTimeout (markAlive now s))) \<and>
              map_option lastActive (m' tok) = Some now \<and>
              map_option status (m' tok) = Some StatusTimeout \<and>
              EvDelete tok \<notin> set ?evs2"
    if nf: "\<not> Finished (status s)" and m': "m' = ?m'" for m'
  proof -
    have "tok \<notin> set ?ex" using nf assms(3) by (simp add: toDelete_def)
    then have "EvDelete tok \<notin> set ?evs2"
      by (auto dest: closing_events)
    moreover have "m' tok = Some (fst (setStatus StatusTimeout (markAlive now s)))"
      using store nf exp m' by (simp add: sweepSession_def)
    ultimately show ?thesis
      by (simp add: setStatus_def markAlive_def)
  qed
  have dead: "?m' tok = None \<and>
              (\<exists>pre post. ?evs2 =
                 pre @ (case evtSource s of None \<Rightarrow> [] | Some h \<Rightarrow> [EvClose h]) @ [EvDelete tok] @ post)"
    if f: "Finished (status s)"
  proof -
    have "tok \<in> set ?ex" using f exp assms(2,3) by (simp add: toDelete_def)
    then obtain a b where ab: "?ex = a @ tok # b" by (auto dest: split_list)
    have "?evs2 = concat (map (closing m) a) @ closing m tok @ concat (map (closing m) b)"
      unfolding ab by simp
    moreover have "closing m tok = (case evtSource s of None \<Rightarrow> [] | Some h \<Rightarrow> [EvClose h]) @ [EvDelete tok]"
      by (simp add: closing_def assms(3))
    ultimately have "?evs2 = concat (map (closing m) a) @
        (case evtSource s of None \<Rightarrow> [] | Some h \<Rightarrow> [EvClose h]) @ [EvDelete tok] @ concat (map (closing m) b)"
      by simp
    then have "\<exists>pre post. ?evs2 =
        pre @ (case evtSource s of None \<Rightarrow> [] | Some h \<Rightarrow> [EvClose h]) @ [EvDelete tok] @ post"
      by (intro exI)
    moreover have "?m' tok = None" using store f by simp
    ultimately show ?thesis by (rule conjI [rotated])
  qed
  show ?thesis
    using run q1 q2 live [OF _ refl] dead by blast
qed

text \<open>
  C1. The claim holds of what the code means to do and fails on the code in two places.
  First, the removal is not done under the write lock of the store: \<open>deleteExpired\<close> has
  a value receiver, so the pass over a store that holds one expired session in a terminal
  state, with an event source, closes the source and deletes the token between taking
  and releasing the lock of the copy, and never takes the lock of the store, the one that
  \<open>add\<close> takes. Second, the timeout of an INITIALIZED session is the client timeout in
  seconds only as far as a 64-bit duration holds it: with a client timeout of
  -9223372037 seconds the session of instant 0 is expired at instant 1 by the claim's
  reckoning, and the pass leaves it as it is.
\<close>

theorem deleteExpired_locks_copy:
  "deleteExpired 300000000001 [''B''] [''B'' \<mapsto> exampleSession ''B'' StatusDone 0 (Some 1)] =
     Inr (Map.empty,
          [EvRLock ReceiverCopy, EvSessionLock ''B'', EvSessionUnlock ''B'', EvRUnlock ReceiverCopy,
           EvLock ReceiverCopy, EvClose 1, EvDelete ''B'', EvUnlock ReceiverCopy]) \<and>
   snd (add Map.empty ''B'' (exampleSession ''B'' StatusDone 0 (Some 1))) =
     [EvLock StoreMutex, EvUnlock StoreMutex] \<and>
   lastActive (exampleSession ''T'' StatusInitialized (- 9223372037) None) +
     (- 9223372037) * 1000000000 < 1 \<and>
   deleteExpired 1 [''T''] [''T'' \<mapsto> exampleSession ''T'' StatusInitialized (- 9223372037) None] =
     Inr ([''T'' \<mapsto> exampleSession ''T'' StatusInitialized (- 9223372037) None],
          [EvRLock ReceiverCopy, EvSessionLock ''T'', EvSessionUnlock ''T'', EvRUnlock ReceiverCopy,
           EvLock ReceiverCopy, EvUnlock ReceiverCopy])"
  by (simp add: deleteExpired_def checkSession_def isExpired_def sessionTimeout_def
      maxSessionLifetime_def Minute_def Second_def exampleSession_def exampleRequest_def add_def)

subsection \<open>The timeout of a session that has connected\<close>

text \<open>
  C2, as the code has it. A session whose status is CONNECTED or COMMUNICATING has the
  timeout of five minutes whatever its client timeout is: a pass at \<open>now\<close> sets it to
  TIMEOUT when \<open>lastActive\<close> plus five minutes is before \<open>now\<close>, and leaves it as it is
  otherwise.
\<close>

theorem connected_session_default_timeout:
  assumes "distinct order" and "tok \<in> set order" and "m tok = Some s"
    and "status s = StatusConnected \<or> status s = StatusCommunicating"
  shows "sint (sessionTimeout s) = 300000000000 \<and>
         (\<exists>m' evs. deleteExpired now order m = Inr (m', evs) \<and>
            (if lastActive s + 300000000000 < now
             then map_option status (m' tok) = Some StatusTimeout
             else m' tok = Some s))"
proof -
  have t: "sint (sessionTimeout s) = 300000000000"
    using assms(4) by (intro sessionTimeout_default) auto
  have nf: "\<not> Finished (status s)" using assms(4) by auto
  obtain m' evs where run: "deleteExpired now order m = Inr (m', evs)"
    using deleteExpired_eq [OF assms(1)] by blast
  have "m' tok = Some (sweepSession now s)"
    using deleteExpired_store [OF assms(1) run, of tok] assms(2,3) nf by simp
  then have "if lastActive s + 300000000000 < now
             then map_option status (m' tok) = Some StatusTimeout
             else m' tok = Some s"
    using nf by (simp add: sweepSession_def isExpired_def t setStatus_def)
  with t run show ?thesis by blast
qed

theorem connected_session_default_timeout_witness:
  "distinct [''T''] \<and> ''T'' \<in> set [''T''] \<and>
   [''T'' \<mapsto> exampleSession ''T'' StatusConnected 10 None] ''T'' = Some (exampleSession ''T'' StatusConnected 10 None) \<and>
   (status (exampleSession ''T'' StatusConnected 10 None) = StatusConnected \<or>
    status (exampleSession ''T'' StatusConnected 10 None) = StatusCommunicating) \<and>
   (\<exists>m' evs. deleteExpired 300000000001 [''T''] [''T'' \<mapsto> exampleSession ''T'' StatusConnected 10 None] = Inr (m', evs) \<and>
      map_option status (m' ''T'') = Some StatusTimeout)"
proof -
  let ?s = "exampleSession ''T'' StatusConnected 10 None"
  have h1: "distinct [''T'']" by simp
  have h2: "''T'' \<in> set [''T'']" by simp
  have h3: "[''T'' \<mapsto> ?s] ''T'' = Some ?s" by simp
  have h4: "status ?s = StatusConnected \<or> status ?s = StatusCommunicating"
    by (simp add: exampleSession_def)
  have l: "lastActive ?s + 300000000000 < 300000000001" by (simp add: exampleSession_def)
  from connected_session_default_timeout
    [of "[''T'']" "''T''" "[''T'' \<mapsto> ?s]" ?s 300000000001, OF h1 h2 h3 h4] l
  have "\<exists>m' evs. deleteExpired 300000000001 [''T''] [''T'' \<mapsto> ?s] = Inr (m', evs) \<and>
      map_option status (m' ''T'') = Some StatusTimeout"
    by auto
  with h1 h2 h3 h4 show ?thesis by blast
qed

text \<open>
  C2, as the claim states it, fails: a CONNECTED session with a client timeout of 10
  seconds, last active at instant 0, is left CONNECTED by a pass at 11 seconds.
\<close>

theorem connected_session_clientTimeout_counterexample:
  "status (exampleSession ''T'' StatusConnected 10 None) = StatusConnected \<and>
   ClientTimeout (rrequest (exampleSession ''T'' StatusConnected 10 None)) = 10 \<and>
   lastActive (exampleSession ''T'' StatusConnected 10 None) + 10 * 1000000000 < 11000000000 \<and>
   deleteExpired 11000000000 [''T''] [''T'' \<mapsto> exampleSession ''T'' StatusConnected 10 None] =
     Inr ([''T'' \<mapsto> exampleSession ''T'' StatusConnected 10 None],
          [EvRLock ReceiverCopy, EvSessionLock ''T'', EvSessionUnlock ''T'', EvRUnlock ReceiverCopy, EvLock ReceiverCopy, EvUnlock ReceiverCopy])"
  by (simp add: deleteExpired_def checkSession_def isExpired_def sessionTimeout_def
      maxSessionLifetime_def Minute_def Second_def exampleSession_def exampleRequest_def)

subsection \<open>What a pass does to lastActive\<close>

text \<open>
  C6, as the code has it. A pass of \<open>deleteExpired\<close> at \<open>now\<close> returns, and for a session
  that is in the store before and after it: when the pass visits it, it is expired and it
  is not in a terminal state, its \<open>lastActive\<close> is \<open>now\<close> afterwards (the pass calls
  \<open>markAlive\<close>) and its status is TIMEOUT; in every other case its \<open>lastActive\<close> is
  unchanged.
\<close>

theorem deleteExpired_lastActive:
  assumes "distinct order"
  shows "\<exists>m' evs. deleteExpired now order m = Inr (m', evs) \<and>
           (\<forall>tok s s'. m tok = Some s \<longrightarrow> m' tok = Some s' \<longrightarrow>
              (if tok \<in> set order \<and> isExpired now s \<and> \<not> Finished (status s)
               then lastActive s' = now \<and> status s' = StatusTimeout
               else lastActive s' = lastActive s))"
proof -
  obtain m' evs where run: "deleteExpired now order m = Inr (m', evs)"
    using deleteExpired_eq [OF assms] by blast
  have "if tok \<in> set order \<and> isExpired now s \<and> \<not> Finished (status s)
        then lastActive s' = now \<and> status s' = StatusTimeout
        else lastActive s' = lastActive s"
    if "m tok = Some s" "m' tok = Some s'" for tok s s'
    using deleteExpired_store [OF assms run, of tok] that
    by (auto simp: sweepSession_def setStatus_def markAlive_def split: if_splits)
  with run show ?thesis by blast
qed

theorem deleteExpired_lastActive_witness:
  "distinct [''A'', ''B''] \<and>
   (\<exists>m' evs. deleteExpired 300000000001 [''A'', ''B''] exampleStore = Inr (m', evs) \<and>
      (\<forall>s'. m' ''A'' = Some s' \<longrightarrow> lastActive s' = 300000000001 \<and> status s' = StatusTimeout))"
proof -
  let ?s = "exampleSession ''A'' StatusInitialized 0 None"
  have h1: "distinct [''A'', ''B'']" by simp
  have a: "exampleStore ''A'' = Some ?s" by (simp add: exampleStore_def)
  have st: "status ?s = StatusInitialized" by (simp add: exampleSession_def)
  have la: "lastActive ?s = 0" by (simp add: exampleSession_def)
  have t: "sint (sessionTimeout ?s) = 300000000000"
    by (rule sessionTimeout_default) (simp add: exampleSession_def exampleRequest_def)
  have e: "isExpired 300000000001 ?s"
    unfolding isExpired_def t la by simp
  have nf: "\<not> Finished (status ?s)" unfolding st by simp
  have mem: "''A'' \<in> set [''A'', ''B'']" by simp
  obtain m' evs where run: "deleteExpired 300000000001 [''A'', ''B''] exampleStore = Inr (m', evs)"
    and all: "\<forall>tok s s'. exampleStore tok = Some s \<longrightarrow> m' tok = Some s' \<longrightarrow>
              (if tok \<in> set [''A'', ''B''] \<and> isExpired 300000000001 s \<and> \<not> Finished (status s)
               then lastActive s' = 300000000001 \<and> status s' = StatusTimeout
               else lastActive s' = lastActive s)"
    using deleteExpired_lastActive [OF h1, of 300000000001 exampleStore] by blast
  have "lastActive s' = 300000000001 \<and> status s' = StatusTimeout" if "m' ''A'' = Some s'" for s'
    using all [rule_format, OF a that] mem e nf by (simp only: simp_thms if_True)
  with h1 run show ?thesis by blast
qed

text \<open>
  C6, as the claim states it, fails: a pass at five minutes and one nanosecond over an
  INITIALIZED session last active at instant 0 leaves it with \<open>lastActive\<close> at
  the instant of the pass, later than before.
\<close>

theorem deleteExpired_lastActive_counterexample:
  "lastActive (exampleSession ''T'' StatusInitialized 0 None) = 0 \<and>
   deleteExpired 300000000001 [''T''] [''T'' \<mapsto> exampleSession ''T'' StatusInitialized 0 None] =
     Inr ([''T'' \<mapsto> (exampleSession ''T'' StatusTimeout 0 None)\<lparr>lastActive := 300000000001\<rparr>],
          [EvRLock ReceiverCopy, EvSessionLock ''T'', EvSessionUnlock ''T'', EvRUnlock ReceiverCopy, EvLock ReceiverCopy, EvUnlock ReceiverCopy])"
  by (simp add: deleteExpired_def checkSession_def isExpired_def sessionTimeout_def
      maxSessionLifetime_def Minute_def Second_def exampleSession_def exampleRequest_def
      setStatus_def markAlive_def)

subsection \<open>get\<close>

text \<open>
  C7. \<open>get\<close> returns what the store holds under the token, a session or nothing, and
  leaves the store as it was: every token holds the same session with the same
  \<open>lastActive\<close>, the only events are taking and releasing the read lock, and a pass of
  \<open>deleteExpired\<close> after the lookup does what it would have done without it.
\<close>

theorem get_is_pure_lookup:
  "fst (get m tok) = m tok \<and>
   fst (snd (get m tok)) = m \<and>
   (\<forall>t. map_option lastActive (fst (snd (get m tok)) t) = map_option lastActive (m t)) \<and>
   snd (snd (get m tok)) = [EvRLock StoreMutex, EvRUnlock StoreMutex] \<and>
   deleteExpired now order (fst (snd (get m tok))) = deleteExpired now order m"
  by (simp add: get_def)

section \<open>Properties of session creation\<close>

subsection \<open>The token\<close>

lemma mod_shift_iff:
  fixes m k n :: nat
  assumes "k < m"
  shows "(n + (m - k)) mod m = 0 \<longleftrightarrow> n mod m = k"
proof -
  let ?r = "n mod m"
  have r: "?r < m" using assms by simp
  have e: "(n + (m - k)) mod m = (?r + (m - k)) mod m"
    by (simp add: mod_add_left_eq)
  show ?thesis
  proof (cases "?r + (m - k) < m")
    case True
    then have "(?r + (m - k)) mod m = ?r + (m - k)" by simp
    moreover have "?r + (m - k) \<noteq> 0" using assms by simp
    moreover have "?r \<noteq> k" using True assms by auto
    ultimately show ?thesis unfolding e by simp
  next
    case False
    then have ge: "m \<le> ?r + (m - k)" by simp
    have lt: "?r + (m - k) - m < m" using r assms by arith
    have "(?r + (m - k)) mod m = (?r + (m - k) - m) mod m"
      using ge by (simp add: le_mod_geq)
    also have "\<dots> = ?r + (m - k) - m" using lt by simp
    finally have "(?r + (m - k)) mod m = 0 \<longleftrightarrow> ?r + (m - k) = m"
      using ge by auto
    also have "\<dots> \<longleftrightarrow> ?r = k" using assms by auto
    finally show ?thesis unfolding e .
  qed
qed

lemma div_step:
  fixes m k n :: nat
  assumes "k < m"
  shows "(Suc n + m - 1 - k) div m = (n + m - 1 - k) div m + (if n mod m = k then 1 else 0)"
proof -
  have a: "Suc n + m - 1 - k = Suc (n + m - 1 - k)" using assms by simp
  have b: "Suc (n + m - 1 - k) = n + (m - k)" using assms by simp
  show ?thesis
    unfolding a div_Suc unfolding b mod_shift_iff [OF assms] by simp
qed

lemma card_mod_eq:
  fixes m k n :: nat
  assumes "k < m"
  shows "card {r. r < n \<and> r mod m = k} = (n + m - 1 - k) div m"
proof (induction n)
  case 0
  show ?case using assms by simp
next
  case (Suc n)
  have fin: "finite {r. r < n \<and> r mod m = k}" by simp
  have split: "{r. r < Suc n \<and> r mod m = k} =
        (if n mod m = k then insert n {r. r < n \<and> r mod m = k} else {r. r < n \<and> r mod m = k})"
    by (auto simp: less_Suc_eq)
  have "card {r. r < Suc n \<and> r mod m = k} =
        card {r. r < n \<and> r mod m = k} + (if n mod m = k then 1 else 0)"
    unfolding split using fin by simp
  then show ?case unfolding Suc.IH div_step [OF assms] .
qed

lemma sessionChars_length: "length sessionChars = 62"
  by (simp add: sessionChars_def)

lemma sessionChars_distinct: "distinct sessionChars"
  by (simp add: sessionChars_def)

lemma fillToken_length: "length (fillToken draws i b) = length b"
  proof (induction draws i b rule: fillToken.induct)
  case (1 draws i b)
  then show ?case
    by (cases "i < length b") (simp_all add: fillToken.simps [of draws i b])
qed

lemma fillToken_nth:
  "j < length b \<Longrightarrow>
   fillToken draws i b ! j = (if i \<le> j then tokenChar (draws j) else b ! j)"
proof (induction draws i b rule: fillToken.induct)
  case (1 draws i b)
  show ?case
  proof (cases "i < length b")
    case True
    have "fillToken draws i b ! j = fillToken draws (i + 1) (b[i := tokenChar (draws i)]) ! j"
      using True by (simp add: fillToken.simps [of draws i b])
    also have "\<dots> = (if i + 1 \<le> j then tokenChar (draws j) else (b[i := tokenChar (draws i)]) ! j)"
      using "1.IH" [OF True] "1.prems" by simp
    also have "\<dots> = (if i \<le> j then tokenChar (draws j) else b ! j)"
      using True "1.prems" by (cases "i = j") auto
    finally show ?thesis .
  next
    case False
    then show ?thesis
      using "1.prems" by (simp add: fillToken.simps [of draws i b])
  qed
qed

lemma newSessionToken_length: "length (newSessionToken draws) = 20"
  by (simp add: newSessionToken_def fillToken_length)

lemma newSessionToken_nth: "i < 20 \<Longrightarrow> newSessionToken draws ! i = tokenChar (draws i)"
  by (simp add: newSessionToken_def fillToken_nth)

lemma tokenChar_in: "tokenChar r \<in> set sessionChars"
  by (simp add: tokenChar_def sessionChars_length)

lemma newSessionToken_set: "set (newSessionToken draws) \<subseteq> set sessionChars"
proof
  fix c assume "c \<in> set (newSessionToken draws)"
  then obtain i where "i < 20" "newSessionToken draws ! i = c"
    by (auto simp: in_set_conv_nth newSessionToken_length)
  then show "c \<in> set sessionChars"
    using tokenChar_in [of "draws i"] by (simp add: newSessionToken_nth)
qed

lemma drawsFor_nth:
  assumes "k < 62"
  shows "drawsFor (sessionChars ! k) = {r. r < 2 ^ 63 \<and> r mod 62 = k}"
proof -
  have "tokenChar r = sessionChars ! k \<longleftrightarrow> r mod 62 = k" for r
    using assms sessionChars_distinct
    by (simp add: tokenChar_def sessionChars_length nth_eq_iff_index_eq)
  then show ?thesis by (simp add: drawsFor_def)
qed

lemma card_drawsFor:
  assumes "k < 62"
  shows "card (drawsFor (sessionChars ! k)) =
           (if k < 8 then 148764065110560901 else 148764065110560900)"
proof -
  have "card (drawsFor (sessionChars ! k)) = (2 ^ 63 + 62 - 1 - k) div 62"
    unfolding drawsFor_nth [OF assms] using assms by (intro card_mod_eq) simp
  also have "\<dots> = (if k < 8 then 148764065110560901 else 148764065110560900)"
    using assms by simp arith
  finally show ?thesis .
qed

lemma token_zero_draws: "newSessionToken (\<lambda>i. 0) = ''aaaaaaaaaaaaaaaaaaaa''"
proof (rule nth_equalityI)
  show "length (newSessionToken (\<lambda>i. 0)) = length ''aaaaaaaaaaaaaaaaaaaa''"
    by (simp add: newSessionToken_length)
  fix i assume "i < length (newSessionToken (\<lambda>i. 0))"
  then have i: "i < 20" by (simp add: newSessionToken_length)
  have "tokenChar 0 = CHR ''a''" by (simp add: tokenChar_def sessionChars_def)
  moreover have "''aaaaaaaaaaaaaaaaaaaa'' ! i = CHR ''a''"
    using i nth_replicate [of i 20 "CHR ''a''"] by (simp add: eval_nat_numeral)
  ultimately show "newSessionToken (\<lambda>i. 0) ! i = ''aaaaaaaaaaaaaaaaaaaa'' ! i"
    using i by (simp add: newSessionToken_nth)
qed

text \<open>
  C4, as the code has it. A token has 20 characters, all of them among the 62 distinct
  characters of \<open>sessionChars\<close>, and its character at position \<open>i\<close> is decided by draw
  \<open>i\<close> alone: it is the character of \<open>sessionChars\<close> at the draw modulo 62. Of the
  \<open>2 ^ 63\<close> values of a draw, 148764065110560901 give each of the first eight characters
  and 148764065110560900 give each of the other 54: the characters are not equally likely
  under equally likely draws, the difference being one value of the draw.
\<close>

theorem newSessionToken_characters:
  "length (newSessionToken draws) = 20 \<and>
   set (newSessionToken draws) \<subseteq> set sessionChars \<and>
   length sessionChars = 62 \<and> distinct sessionChars \<and>
   (\<forall>i<20. newSessionToken draws ! i = sessionChars ! (draws i mod 62)) \<and>
   (\<forall>k<62. card (drawsFor (sessionChars ! k)) =
      (if k < 8 then 148764065110560901 else 148764065110560900))"
  using newSessionToken_length [of draws] newSessionToken_set [of draws]
    sessionChars_length sessionChars_distinct card_drawsFor
  by (simp add: newSessionToken_nth tokenChar_def)

theorem newSessionToken_characters_witness:
  "(3::nat) < 20 \<and> (61::nat) < 62 \<and>
   newSessionToken (\<lambda>i. 61 + i) ! 3 = CHR ''c'' \<and>
   card (drawsFor (CHR ''9'')) = 148764065110560900"
proof -
  have h1: "(3::nat) < 20" by simp
  have h2: "(61::nat) < 62" by simp
  have i: "sessionChars ! ((61 + 3) mod 62) = CHR ''c''" by (simp add: sessionChars_def)
  have k: "sessionChars ! 61 = CHR ''9''" by (simp add: sessionChars_def)
  from newSessionToken_characters [of "\<lambda>i. 61 + i"]
  have a: "\<forall>i<20. newSessionToken (\<lambda>i. 61 + i) ! i = sessionChars ! ((61 + i) mod 62)"
    and b: "\<forall>k<62. card (drawsFor (sessionChars ! k)) =
      (if k < 8 then 148764065110560901 else 148764065110560900)"
    by blast+
  from a [rule_format, OF h1] i have "newSessionToken (\<lambda>i. 61 + i) ! 3 = CHR ''c''" by simp
  moreover from b [rule_format, OF h2] k have "card (drawsFor (CHR ''9'')) = 148764065110560900"
    by simp
  ultimately show ?thesis by simp
qed

text \<open>
  C4, as the claim states it, fails in its last part: more values of a draw give the
  character a than give the character 9.
\<close>

theorem tokenChar_uniform_counterexample:
  "card (drawsFor (CHR ''a'')) = 148764065110560901 \<and>
   card (drawsFor (CHR ''9'')) = 148764065110560900"
proof -
  have a: "sessionChars ! 0 = CHR ''a''" by (simp add: sessionChars_def)
  have z: "sessionChars ! 61 = CHR ''9''" by (simp add: sessionChars_def)
  show ?thesis
    using card_drawsFor [of 0] card_drawsFor [of 61] unfolding a z by simp
qed

subsection \<open>newSession and the store\<close>

text \<open>
  C3, as the code has it. \<open>newSession\<close> takes the token from \<open>newSessionToken\<close>
  without looking at the store, and \<open>add\<close> stores the new session under it: the store
  afterwards is the store before with the new session under the token, in place of
  whatever the token held, and every other token holds what it held. A map holds at
  most one session for a token.
\<close>

theorem newSession_stores_under_token:
  "token (fst (newSession e m act req)) = newSessionToken (Int63 e) \<and>
   fst (snd (newSession e m act req)) =
     m(newSessionToken (Int63 e) \<mapsto> fst (newSession e m act req)) \<and>
   snd (snd (newSession e m act req)) = [EvLock StoreMutex, EvUnlock StoreMutex]"
  by (simp add: newSession_def add_def Let_def)

text \<open>
  C3, as the claim states it, fails: when the draws repeat, the second session is stored
  under the token of the first, which is INITIALIZED and still in the store, and
  replaces it.
\<close>

theorem newSession_collision_counterexample:
  "firstStore ''aaaaaaaaaaaaaaaaaaaa'' =
     Some (fst (newSession exampleEnv Map.empty ''disclosing'' exampleRequest)) \<and>
   status (fst (newSession exampleEnv Map.empty ''disclosing'' exampleRequest)) = StatusInitialized \<and>
   fst (snd (newSession exampleEnv firstStore ''signing'' exampleRequest)) ''aaaaaaaaaaaaaaaaaaaa'' =
     Some (fst (newSession exampleEnv firstStore ''signing'' exampleRequest)) \<and>
   action (fst (newSession exampleEnv firstStore ''signing'' exampleRequest)) = ''signing'' \<and>
   action (fst (newSession exampleEnv Map.empty ''disclosing'' exampleRequest)) = ''disclosing''"
  by (simp add: firstStore_def newSession_def add_def Let_def exampleEnv_def token_zero_draws)

subsection \<open>Nonce and context\<close>





section \<open>Properties of the HTTP transport\<close>

subsection \<open>The request that is sent\<close>

lemma canonical_user_agent: "CanonicalMIMEHeaderKey ''User-Agent'' = ''User-Agent''"
  by code_simp














lemma exampleGet_prepare:
  "prepare (exampleWorld code body) (NewHTTPTransport ''http://localhost'') ''status'' MethodGet ObjNil =
     Inr (Inr exampleGet)"
  by (simp add: prepare_def encodeObject_def addHeaders_def HeaderSet_def canonical_user_agent
      exampleWorld_def NewHTTPTransport_def hasSuffixSlash_def exampleGet_def
      MethodGet_def MethodPost_def MethodDelete_def)

lemma exampleDelete_prepare:
  "prepare (exampleWorld code body) (NewHTTPTransport ''http://localhost'') [] MethodDelete ObjNil =
     Inr (Inr exampleDelete)"
  by (simp add: prepare_def encodeObject_def addHeaders_def HeaderSet_def canonical_user_agent
      exampleWorld_def NewHTTPTransport_def hasSuffixSlash_def exampleDelete_def
      MethodGet_def MethodPost_def MethodDelete_def)





subsection \<open>Responses\<close>

text \<open>
  C8. A GET or POST for which a request was sent and answered with a status other than
  200: \<open>transport_request\<close> returns an error that carries the status, and the caller's
  result is as it was. When the body was read and decodes to an envelope with a
  non-empty error name, the error has the kind api and carries the envelope; otherwise
  (the body unreadable, or no error name in what it decodes to) it has the kind
  serverResponse and carries no envelope.
\<close>

theorem request_not_200:
  assumes "method = MethodGet \<or> method = MethodPost"
    and "prepare w transport url method object = Inr (Inr req)"
    and "Do w req = Inr res"
    and "StatusCode res \<noteq> 200"
  shows "\<exists>e. transport_request w transport url method target object = Inr (Some e, target, [req]) \<and>
           errStatus e = StatusCode res \<and>
           (case ResBody res of
              Inl err \<Rightarrow> ErrorType e = ErrorServerResponse \<and> ApiError e = None
            | Inr body \<Rightarrow>
                if ErrorName (snd (UnmarshalApiError w body zeroApiError)) \<noteq> []
                then ErrorType e = ErrorApi \<and>
                     ApiError e = Some (snd (UnmarshalApiError w body zeroApiError))
                else ErrorType e = ErrorServerResponse \<and> ApiError e = None)"
proof -
  have nd: "method \<noteq> MethodDelete"
    using assms(1) by (auto simp: MethodGet_def MethodPost_def MethodDelete_def)
  show ?thesis
  proof (cases "ResBody res")
    case (Inl err)
    then show ?thesis
      using assms nd
      by (simp add: transport_request_def receive_def sessionError_def)
  next
    case (Inr body)
    then show ?thesis
      using assms nd
      by (simp add: transport_request_def receive_def sessionError_def Let_def)
  qed
qed

theorem request_not_200_witness:
  "(MethodGet = MethodGet \<or> MethodGet = MethodPost) \<and>
   prepare (exampleWorld 404 ''{error: SESSION_UNKNOWN}'') (NewHTTPTransport ''http://localhost'')
     ''status'' MethodGet ObjNil = Inr (Inr exampleGet) \<and>
   Do (exampleWorld 404 ''{error: SESSION_UNKNOWN}'') exampleGet =
     Inr \<lparr>StatusCode = 404, ResBody = Inr ''{error: SESSION_UNKNOWN}''\<rparr> \<and>
   StatusCode \<lparr>StatusCode = 404, ResBody = Inr ''{error: SESSION_UNKNOWN}''\<rparr> \<noteq> 200 \<and>
   (\<exists>e. transport_request (exampleWorld 404 ''{error: SESSION_UNKNOWN}'')
          (NewHTTPTransport ''http://localhost'') ''status'' MethodGet (TargetString ''before'') ObjNil =
            Inr (Some e, TargetString ''before'', [exampleGet]) \<and>
        ErrorType e = ErrorApi \<and> errStatus e = 404)"
proof -
  let ?w = "exampleWorld 404 ''{error: SESSION_UNKNOWN}''"
  let ?res = "\<lparr>StatusCode = 404, ResBody = Inr ''{error: SESSION_UNKNOWN}''\<rparr>"
  have h1: "MethodGet = MethodGet \<or> MethodGet = MethodPost" by simp
  have h2: "prepare ?w (NewHTTPTransport ''http://localhost'') ''status'' MethodGet ObjNil =
              Inr (Inr exampleGet)"
    by (rule exampleGet_prepare)
  have h3: "Do ?w exampleGet = Inr ?res" by (simp add: exampleWorld_def)
  have h4: "StatusCode ?res \<noteq> 200" by simp
  have n: "ErrorName (snd (UnmarshalApiError ?w ''{error: SESSION_UNKNOWN}'' zeroApiError)) \<noteq> []"
    by (simp add: exampleWorld_def exampleParse_def)
  from request_not_200 [OF h1 h2 h3 h4, of "TargetString ''before''"] n
  have "\<exists>e. transport_request ?w (NewHTTPTransport ''http://localhost'') ''status'' MethodGet
               (TargetString ''before'') ObjNil = Inr (Some e, TargetString ''before'', [exampleGet]) \<and>
            ErrorType e = ErrorApi \<and> errStatus e = 404"
    by auto
  with h1 h2 h3 h4 show ?thesis by blast
qed

text \<open>
  C10. A DELETE whose request was sent and answered returns no error, whatever the status
  and body of the answer, and leaves the result as it was. An error that a DELETE
  returns is never of the kind api or serverResponse. \<open>Delete\<close> itself always returns.
\<close>

theorem request_delete:
  "(\<forall>req res. prepare w transport url MethodDelete object = Inr (Inr req) \<longrightarrow> Do w req = Inr res \<longrightarrow>
      transport_request w transport url MethodDelete target object = Inr (None, target, [req])) \<and>
   (\<forall>e target' sent. transport_request w transport url MethodDelete target object = Inr (Some e, target', sent) \<longrightarrow>
      ErrorType e \<noteq> ErrorApi \<and> ErrorType e \<noteq> ErrorServerResponse \<and> target' = target) \<and>
   (\<exists>sent. Delete w transport = Inr sent)"
proof -
  have a: "transport_request w transport url MethodDelete target object = Inr (None, target, [req])"
    if "prepare w transport url MethodDelete object = Inr (Inr req)" "Do w req = Inr res" for req res
    using that by (simp add: transport_request_def receive_def)
  have b: "ErrorType e \<noteq> ErrorApi \<and> ErrorType e \<noteq> ErrorServerResponse \<and> target' = target"
    if "transport_request w transport url MethodDelete target object = Inr (Some e, target', sent)"
    for e target' sent
    using that
    by (auto simp: transport_request_def receive_def prepare_def encodeObject_def sessionError_def
        ErrorApi_def ErrorServerResponse_def ErrorTransport_def ErrorSerialization_def
        split: sum.splits option.splits if_splits object.splits)
  have c: "\<exists>sent. Delete w transport = Inr sent"
    by (auto simp: Delete_def transport_request_def prepare_def encodeObject_def
        MethodGet_def MethodPost_def MethodDelete_def
        split: sum.splits option.splits prod.splits)
  from a b c show ?thesis by blast
qed

theorem request_delete_witness:
  "prepare (exampleWorld 500 ''boom'') (NewHTTPTransport ''http://localhost'') [] MethodDelete ObjNil =
     Inr (Inr exampleDelete) \<and>
   Do (exampleWorld 500 ''boom'') exampleDelete = Inr \<lparr>StatusCode = 500, ResBody = Inr ''boom''\<rparr> \<and>
   transport_request (exampleWorld 500 ''boom'') (NewHTTPTransport ''http://localhost'') [] MethodDelete
     TargetNil ObjNil = Inr (None, TargetNil, [exampleDelete])"
proof -
  let ?w = "exampleWorld 500 ''boom''"
  have h1: "prepare ?w (NewHTTPTransport ''http://localhost'') [] MethodDelete ObjNil =
              Inr (Inr exampleDelete)"
    by (rule exampleDelete_prepare)
  have h2: "Do ?w exampleDelete = Inr \<lparr>StatusCode = 500, ResBody = Inr ''boom''\<rparr>"
    by (simp add: exampleWorld_def)
  from request_delete [of ?w "NewHTTPTransport ''http://localhost''" "[]" ObjNil TargetNil]
  have "\<forall>req res. prepare ?w (NewHTTPTransport ''http://localhost'') [] MethodDelete ObjNil = Inr (Inr req) \<longrightarrow>
          Do ?w req = Inr res \<longrightarrow>
          transport_request ?w (NewHTTPTransport ''http://localhost'') [] MethodDelete TargetNil ObjNil =
            Inr (None, TargetNil, [req])"
    by blast
  from this [rule_format, OF h1 h2] h1 h2 show ?thesis by blast
qed

end
